theory Spec2Isabelle
  imports Main "HOL-Library.Sublist"
begin

section \<open>Text primitives of the host language\<close>

text \<open>
  The module \<^verbatim>\<open>app/src/lib/git/tag.ts\<close> parses the standard output of the version-control
  tool. Its strings are modelled as \<^typ>\<open>string\<close>, a list of characters (the host language
  has 16-bit code units where \<^typ>\<open>char\<close> has 8 bits; the module only compares and cuts
  code units, so the width plays no part). The three separators it splits on are single
  characters.
\<close>

abbreviation LF :: char where "LF \<equiv> CHR 0x0A"
abbreviation TAB :: char where "TAB \<equiv> CHR 0x09"
abbreviation NUL :: char where "NUL \<equiv> CHR 0x00"

text \<open>
  \<^verbatim>\<open>s.split(sep)\<close> for a one-character separator: the pieces between the occurrences of
  the separator, in order. The empty string gives one empty piece, and a trailing separator
  gives a trailing empty piece. The result is never the empty list, so the first branch of
  the \<open>case\<close> is never taken.
\<close>

fun split_str :: "char \<Rightarrow> string \<Rightarrow> string list" where
  "split_str sep [] = [[]]"
| "split_str sep (c # cs) =
     (if c = sep then [] # split_str sep cs
      else (case split_str sep cs of
              [] \<Rightarrow> [[c]]
            | piece # pieces \<Rightarrow> (c # piece) # pieces))"

text \<open>\<^verbatim>\<open>xs.join(sep)\<close>.\<close>

fun join :: "string \<Rightarrow> string list \<Rightarrow> string" where
  "join sep [] = []"
| "join sep [x] = x"
| "join sep (x # y # ys) = x @ sep @ join sep (y # ys)"

text \<open>\<^verbatim>\<open>s.startsWith(p)\<close> and \<^verbatim>\<open>s.endsWith(p)\<close>.\<close>

definition startsWith :: "string \<Rightarrow> string \<Rightarrow> bool" where
  "startsWith s p = (take (length p) s = p)"

definition endsWith :: "string \<Rightarrow> string \<Rightarrow> bool" where
  "endsWith s p = (length p \<le> length s \<and> drop (length s - length p) s = p)"

text \<open>
  \<^verbatim>\<open>s.replace(/^p/, '')\<close> for a pattern that is the start anchor followed by the literal
  text \<open>p\<close>: a leading \<open>p\<close> is removed, and a string that does not start with \<open>p\<close> is
  returned as it is.
\<close>

definition replace_leading :: "string \<Rightarrow> string \<Rightarrow> string" where
  "replace_leading p s = (if startsWith s p then drop (length p) s else s)"


section \<open>Collaborators\<close>

text \<open>
  The command runner \<^verbatim>\<open>git(args, path, name)\<close> and the provider of network arguments
  \<^verbatim>\<open>gitNetworkArguments(repository, account)\<close> live in \<^verbatim>\<open>./core\<close>; the operations take
  them as parameters. The runner either fails (the command exited with an error, which the
  source lets propagate as an exception) or returns the standard output.
\<close>

datatype error = ToolInvocationError string

type_synonym runner = "string list \<Rightarrow> string \<Rightarrow> string \<Rightarrow> error + string"

record Repository =
  path :: string

record IRemote =
  name :: string
  url :: string

type_synonym 'account networkArguments = "Repository \<Rightarrow> 'account option \<Rightarrow> string list"


section \<open>The operations\<close>

definition createTag :: "runner \<Rightarrow> Repository \<Rightarrow> string \<Rightarrow> string \<Rightarrow> error + unit" where
  "createTag git repository tagName targetCommitSha =
     (let args = [''tag'', ''-a'', ''-m'', '''', tagName, targetCommitSha] in
      case git args (path repository) ''createTag'' of
        Inl e \<Rightarrow> Inl e
      | Inr stdout \<Rightarrow> Inr ())"

definition getAllTags :: "runner \<Rightarrow> Repository \<Rightarrow> error + string list" where
  "getAllTags git repository =
     (let args = [''tag''] in
      case git args (path repository) ''getAllTags'' of
        Inl e \<Rightarrow> Inl e
      | Inr stdout \<Rightarrow> Inr (filter (\<lambda>s. s \<noteq> '''') (split_str LF stdout)))"

text \<open>
  The function mapped over the lines by \<^verbatim>\<open>getAnnotatedTags\<close>. The destructuring
  \<^verbatim>\<open>[name, objectType] = tagLine.split('\0')\<close> reads the first two pieces; with fewer than two
  pieces \<^verbatim>\<open>objectType\<close> is \<^verbatim>\<open>undefined\<close>, which differs from \<^verbatim>\<open>'tag'\<close>.
\<close>

definition annotatedTagOfLine :: "string \<Rightarrow> string" where
  "annotatedTagOfLine tagLine =
     (if tagLine = '''' then ''''
      else (case split_str NUL tagLine of
              tagName # objectType # rest \<Rightarrow> if objectType \<noteq> ''tag'' then '''' else tagName
            | _ \<Rightarrow> ''''))"

definition annotatedFormat :: string where
  "annotatedFormat = join ''%00'' [''%(refname:strip=2)'', ''%(objecttype)'']"

definition getAnnotatedTags :: "runner \<Rightarrow> Repository \<Rightarrow> error + string list" where
  "getAnnotatedTags git repository =
     (let args = [''tag'', ''--format='' @ annotatedFormat] in
      case git args (path repository) ''getAnnotatedTags'' of
        Inl e \<Rightarrow> Inl e
      | Inr stdout \<Rightarrow>
          (let rawTags = split_str LF stdout in
           Inr (filter (\<lambda>tag. tag \<noteq> '''') (map annotatedTagOfLine rawTags))))"

text \<open>
  The function mapped over the lines by \<^verbatim>\<open>fetchRemoteTags\<close>; \<^verbatim>\<open>null\<close> is \<open>None\<close>. The
  destructuring \<^verbatim>\<open>[, fullTagName] = line.split('\t')\<close> reads the second piece, which is
  \<^verbatim>\<open>undefined\<close> when the line has no tab. The second replacement has the pattern
  \<^verbatim>\<open>/^{}/\<close>: there the caret is the start anchor and the braces, which form no quantifier,
  stand for themselves, so it removes a leading \<^verbatim>\<open>{}\<close>.
\<close>

definition remoteTagOfLine :: "string \<Rightarrow> string option" where
  "remoteTagOfLine line =
     (case split_str TAB line of
        sha # fullTagName # rest \<Rightarrow>
          if fullTagName = '''' then None
          else if endsWith fullTagName ''^{}'' then None
          else Some (replace_leading ''{}'' (replace_leading ''refs/tags/'' fullTagName))
      | _ \<Rightarrow> None)"

definition fetchRemoteTags ::
  "runner \<Rightarrow> 'account networkArguments \<Rightarrow> Repository \<Rightarrow> 'account option \<Rightarrow> IRemote
     \<Rightarrow> error + string list" where
  "fetchRemoteTags git gitNetworkArguments repository account remote =
     (let networkArguments = gitNetworkArguments repository account;
          args = networkArguments @ [''ls-remote'', ''--tags'', name remote] in
      case git args (path repository) ''fetchUnpushedTags'' of
        Inl e \<Rightarrow> Inl e
      | Inr stdout \<Rightarrow>
          Inr (map the (filter (\<lambda>tag. tag \<noteq> None)
                 (map remoteTagOfLine (split_str LF stdout)))))"

definition isTagReachableByRemote ::
  "runner \<Rightarrow> Repository \<Rightarrow> string \<Rightarrow> IRemote \<Rightarrow> error + bool" where
  "isTagReachableByRemote git repository tag remote =
     (let args = [''branch'', ''--remote'', ''--contains'', tag, ''--format=%(refname:short)''] in
      case git args (path repository) ''isTagReachableByRemote'' of
        Inl e \<Rightarrow> Inl e
      | Inr stdout \<Rightarrow>
          (let branches = filter (\<lambda>line. startsWith line (name remote @ ''/''))
                            (split_str LF stdout) in
           Inr (length branches > 0)))"


section \<open>Fixtures\<close>

text \<open>A runner that answers every command with the same canned text.\<close>

definition cannedRunner :: "string \<Rightarrow> runner" where
  "cannedRunner out args dir context = Inr out"

definition noNetworkArguments :: "unit networkArguments" where
  "noNetworkArguments repository account = []"

definition repo0 :: Repository where
  "repo0 = \<lparr>path = ''/repo''\<rparr>"

definition origin :: IRemote where
  "origin = \<lparr>name = ''origin'', url = ''https://example.com/repo.git''\<rparr>"


section \<open>Reference descriptions of the tool's output\<close>

text \<open>
  The specification's wording of the annotated-tag filter (section 4.3): for each non-empty
  line, split on the null byte and keep the first field when the second field is literally
  \<^verbatim>\<open>tag\<close>. It is compared with \<open>getAnnotatedTags\<close> below.
\<close>

definition firstField :: "string \<Rightarrow> string" where
  "firstField line = (case split_str NUL line of [] \<Rightarrow> '''' | f # fs \<Rightarrow> f)"

definition secondField :: "string \<Rightarrow> string option" where
  "secondField line = (case split_str NUL line of f # g # fs \<Rightarrow> Some g | _ \<Rightarrow> None)"

definition listAnnotatedTags_spec :: "string \<Rightarrow> string list" where
  "listAnnotatedTags_spec stdout =
     map firstField
       (filter (\<lambda>line. line \<noteq> '''' \<and> secondField line = Some ''tag'') (split_str LF stdout))"

text \<open>
  A normalized tag name (section 3 of the specification): it carries neither the
  ref-namespace prefix nor the dereference marker.
\<close>

definition isTagName :: "string \<Rightarrow> bool" where
  "isTagName n = (\<not> startsWith n ''refs/tags/'' \<and> \<not> endsWith n ''^{}'')"

text \<open>The second tab-separated field of a line of a remote listing, when the line has one.\<close>

definition refField :: "string \<Rightarrow> string option" where
  "refField line = (case split_str TAB line of sha # ref # rest \<Rightarrow> Some ref | _ \<Rightarrow> None)"

text \<open>
  A remote listing as the specification describes it (section 4.4 and the glossary): every
  tag gives one line \<^verbatim>\<open><objectId>\trefs/tags/<name>\<close>, and an annotated tag gives a second,
  peeled line for the commit it resolves to, marked with the suffix \<^verbatim>\<open>^{}\<close>.
\<close>

datatype remoteTag =
    Lightweight string string
  | Annotated string string string

fun remoteTagName :: "remoteTag \<Rightarrow> string" where
  "remoteTagName (Lightweight sha n) = n"
| "remoteTagName (Annotated sha n commitSha) = n"

fun remoteTagShas :: "remoteTag \<Rightarrow> string list" where
  "remoteTagShas (Lightweight sha n) = [sha]"
| "remoteTagShas (Annotated sha n commitSha) = [sha, commitSha]"

fun lsRemoteLines :: "remoteTag \<Rightarrow> string" where
  "lsRemoteLines (Lightweight sha n) = sha @ TAB # ''refs/tags/'' @ n @ [LF]"
| "lsRemoteLines (Annotated sha n commitSha) =
     sha @ TAB # ''refs/tags/'' @ n @ LF # commitSha @ TAB # ''refs/tags/'' @ n @ ''^{}'' @ [LF]"

definition lsRemoteOutput :: "remoteTag list \<Rightarrow> string" where
  "lsRemoteOutput ts = concat (map lsRemoteLines ts)"

text \<open>
  The conditions under which a listed tag is read back as it is: the object ids and the
  name hold neither separator, and the name neither ends with the peeled marker nor starts
  with \<^verbatim>\<open>{}\<close>.
\<close>

definition plainRemoteTag :: "remoteTag \<Rightarrow> bool" where
  "plainRemoteTag t =
     ((\<forall>sha \<in> set (remoteTagShas t). TAB \<notin> set sha \<and> LF \<notin> set sha)
      \<and> TAB \<notin> set (remoteTagName t) \<and> LF \<notin> set (remoteTagName t)
      \<and> \<not> endsWith (remoteTagName t) ''^{}''
      \<and> \<not> startsWith (remoteTagName t) ''{}'')"

text \<open>
  The two local listings of one repository state, given as the list of its tags with their
  object types: \<^verbatim>\<open>git tag\<close> prints one name per line, and the formatted listing prints
  the name and the object type joined by a null byte.
\<close>

definition tagListing :: "(string \<times> string) list \<Rightarrow> string" where
  "tagListing ts = concat (map (\<lambda>(n, objectType). n @ [LF]) ts)"

definition tagFormatListing :: "(string \<times> string) list \<Rightarrow> string" where
  "tagFormatListing ts = concat (map (\<lambda>(n, objectType). n @ NUL # objectType @ [LF]) ts)"

text \<open>A runner that answers the two local listing commands for a given repository state.\<close>

definition tagRunner :: "(string \<times> string) list \<Rightarrow> runner" where
  "tagRunner ts args dir context =
     (if args = [''tag''] then Inr (tagListing ts)
      else if args = [''tag'', ''--format=%(refname:strip=2)%00%(objecttype)'']
        then Inr (tagFormatListing ts)
      else Inl (ToolInvocationError ''unsupported command''))"


section \<open>Facts about the text primitives and the operations\<close>

lemma split_str_not_Nil: "split_str sep s \<noteq> []"
  by (induction s) (auto split: list.splits)

lemma split_str_no_sep: "l \<in> set (split_str sep s) \<Longrightarrow> sep \<notin> set l"
  by (induction s arbitrary: l) (auto split: list.splits if_splits)

lemma split_str_single: "sep \<notin> set a \<Longrightarrow> split_str sep a = [a]"
  by (induction a) auto

lemma split_str_append: "sep \<notin> set a \<Longrightarrow> split_str sep (a @ sep # rest) = a # split_str sep rest"
  by (induction a) auto

text \<open>Joining the pieces with the separator gives the text back, so no character is lost.\<close>

lemma split_str_join: "join [sep] (split_str sep s) = s"
proof (induction s)
  case Nil
  show ?case by simp
next
  case (Cons c cs)
  obtain piece pieces where ps: "split_str sep cs = piece # pieces"
    using split_str_not_Nil [of sep cs] by (cases "split_str sep cs") auto
  show ?case
  proof (cases "c = sep")
    case True
    with Cons ps show ?thesis by simp
  next
    case False
    with Cons ps show ?thesis by (cases pieces) auto
  qed
qed

lemma startsWith_prefix: "startsWith s p \<longleftrightarrow> prefix p s"
  unfolding startsWith_def
  by (metis append_eq_conv_conj prefix_def)

lemma endsWith_suffix: "endsWith s p \<longleftrightarrow> suffix p s"
proof
  assume "endsWith s p"
  then have "s = take (length s - length p) s @ p"
    unfolding endsWith_def by (metis append_take_drop_id)
  then show "suffix p s" unfolding suffix_def by blast
next
  assume "suffix p s"
  then obtain zs where "s = zs @ p" unfolding suffix_def by blast
  then show "endsWith s p" unfolding endsWith_def by simp
qed

lemma replace_leading_suffix: "suffix (replace_leading p s) s"
  unfolding replace_leading_def by (simp add: suffix_drop)

lemma suffix_not_endsWith:
  assumes "suffix n f" and "\<not> endsWith f p" shows "\<not> endsWith n p"
  using assms unfolding endsWith_suffix by (meson suffix_order.trans)

lemma getAllTags_Inr:
  "git [''tag''] (path repository) ''getAllTags'' = Inr stdout \<Longrightarrow>
   getAllTags git repository = Inr (filter (\<lambda>s. s \<noteq> '''') (split_str LF stdout))"
  by (simp add: getAllTags_def)

lemma getAllTags_InrD:
  "getAllTags git repository = Inr tags \<Longrightarrow>
   \<exists>stdout. git [''tag''] (path repository) ''getAllTags'' = Inr stdout
     \<and> tags = filter (\<lambda>s. s \<noteq> '''') (split_str LF stdout)"
  by (auto simp: getAllTags_def split: sum.splits)

lemma annotatedFormat_eq: "annotatedFormat = ''%(refname:strip=2)%00%(objecttype)''"
  by (simp add: annotatedFormat_def)

lemma getAnnotatedTags_Inr:
  "git [''tag'', ''--format='' @ annotatedFormat] (path repository) ''getAnnotatedTags'' = Inr stdout \<Longrightarrow>
   getAnnotatedTags git repository
     = Inr (filter (\<lambda>tag. tag \<noteq> '''') (map annotatedTagOfLine (split_str LF stdout)))"
  by (simp add: getAnnotatedTags_def)

lemma getAnnotatedTags_InrD:
  "getAnnotatedTags git repository = Inr tags \<Longrightarrow>
   \<exists>stdout. git [''tag'', ''--format='' @ annotatedFormat] (path repository) ''getAnnotatedTags'' = Inr stdout
     \<and> tags = filter (\<lambda>tag. tag \<noteq> '''') (map annotatedTagOfLine (split_str LF stdout))"
  by (auto simp: getAnnotatedTags_def split: sum.splits)

lemma fetchRemoteTags_Inr:
  "git (gitNetworkArguments repository account @ [''ls-remote'', ''--tags'', name remote])
       (path repository) ''fetchUnpushedTags'' = Inr stdout \<Longrightarrow>
   fetchRemoteTags git gitNetworkArguments repository account remote
     = Inr (map the (filter (\<lambda>tag. tag \<noteq> None) (map remoteTagOfLine (split_str LF stdout))))"
  by (simp add: fetchRemoteTags_def)

lemma fetchRemoteTags_InrD:
  "fetchRemoteTags git gitNetworkArguments repository account remote = Inr tags \<Longrightarrow>
   \<exists>stdout. git (gitNetworkArguments repository account @ [''ls-remote'', ''--tags'', name remote])
       (path repository) ''fetchUnpushedTags'' = Inr stdout
     \<and> tags = map the (filter (\<lambda>tag. tag \<noteq> None) (map remoteTagOfLine (split_str LF stdout)))"
  by (auto simp: fetchRemoteTags_def Let_def split: sum.splits)

lemma isTagReachableByRemote_Inr:
  "git [''branch'', ''--remote'', ''--contains'', tag, ''--format=%(refname:short)'']
       (path repository) ''isTagReachableByRemote'' = Inr stdout \<Longrightarrow>
   isTagReachableByRemote git repository tag remote
     = Inr (length (filter (\<lambda>line. startsWith line (name remote @ ''/'')) (split_str LF stdout)) > 0)"
  by (simp add: isTagReachableByRemote_def)

lemma mem_collected:
  "n \<in> set (map the (filter (\<lambda>tag. tag \<noteq> None) (map f ls))) \<longleftrightarrow> (\<exists>l \<in> set ls. f l = Some n)"
  by (induction ls) auto

lemma remoteTagOfLine_SomeD:
  "remoteTagOfLine line = Some n \<Longrightarrow>
   \<exists>sha fullTagName rest. split_str TAB line = sha # fullTagName # rest \<and> fullTagName \<noteq> ''''
     \<and> \<not> endsWith fullTagName ''^{}''
     \<and> n = replace_leading ''{}'' (replace_leading ''refs/tags/'' fullTagName)"
  by (auto simp: remoteTagOfLine_def split: list.splits if_splits)

lemma annotatedTagOfLine_nonemptyD:
  "annotatedTagOfLine line \<noteq> '''' \<Longrightarrow>
   \<exists>rest. split_str NUL line = annotatedTagOfLine line # ''tag'' # rest"
  by (auto simp: annotatedTagOfLine_def split: list.splits if_splits)


section \<open>Empty output, local names and reachability\<close>

text \<open>
  C8. When the runner's output is the empty string, \<open>getAllTags\<close>, \<open>getAnnotatedTags\<close> and
  \<open>fetchRemoteTags\<close> each return the empty sequence and \<open>isTagReachableByRemote\<close> returns
  false; none of them fails.
\<close>

theorem empty_output_empty_result:
  "(git [''tag''] (path repository) ''getAllTags'' = Inr ''''
      \<longrightarrow> getAllTags git repository = Inr [])
   \<and> (git [''tag'', ''--format=%(refname:strip=2)%00%(objecttype)''] (path repository)
          ''getAnnotatedTags'' = Inr ''''
      \<longrightarrow> getAnnotatedTags git repository = Inr [])
   \<and> (git (gitNetworkArguments repository account @ [''ls-remote'', ''--tags'', name remote])
          (path repository) ''fetchUnpushedTags'' = Inr ''''
      \<longrightarrow> fetchRemoteTags git gitNetworkArguments repository account remote = Inr [])
   \<and> (git [''branch'', ''--remote'', ''--contains'', tag, ''--format=%(refname:short)'']
          (path repository) ''isTagReachableByRemote'' = Inr ''''
      \<longrightarrow> isTagReachableByRemote git repository tag remote = Inr False)"
proof (intro conjI impI)
  assume "git [''tag''] (path repository) ''getAllTags'' = Inr ''''"
  then show "getAllTags git repository = Inr []"
    by (simp add: getAllTags_Inr)
next
  assume "git [''tag'', ''--format=%(refname:strip=2)%00%(objecttype)''] (path repository)
            ''getAnnotatedTags'' = Inr ''''"
  then show "getAnnotatedTags git repository = Inr []"
    by (simp add: getAnnotatedTags_Inr annotatedFormat_eq annotatedTagOfLine_def)
next
  assume "git (gitNetworkArguments repository account @ [''ls-remote'', ''--tags'', name remote])
            (path repository) ''fetchUnpushedTags'' = Inr ''''"
  then show "fetchRemoteTags git gitNetworkArguments repository account remote = Inr []"
    by (simp add: fetchRemoteTags_Inr remoteTagOfLine_def)
next
  assume "git [''branch'', ''--remote'', ''--contains'', tag, ''--format=%(refname:short)'']
            (path repository) ''isTagReachableByRemote'' = Inr ''''"
  then show "isTagReachableByRemote git repository tag remote = Inr False"
    by (simp add: isTagReachableByRemote_Inr startsWith_def)
qed

theorem empty_output_empty_result_witness:
  "cannedRunner '''' [''tag''] (path repo0) ''getAllTags'' = Inr ''''
   \<and> getAllTags (cannedRunner '''') repo0 = Inr []
   \<and> cannedRunner '''' [''tag'', ''--format=%(refname:strip=2)%00%(objecttype)''] (path repo0)
        ''getAnnotatedTags'' = Inr ''''
   \<and> getAnnotatedTags (cannedRunner '''') repo0 = Inr []
   \<and> cannedRunner '''' (noNetworkArguments repo0 None @ [''ls-remote'', ''--tags'', name origin])
        (path repo0) ''fetchUnpushedTags'' = Inr ''''
   \<and> fetchRemoteTags (cannedRunner '''') noNetworkArguments repo0 None origin = Inr []
   \<and> cannedRunner '''' [''branch'', ''--remote'', ''--contains'', ''v1'', ''--format=%(refname:short)'']
        (path repo0) ''isTagReachableByRemote'' = Inr ''''
   \<and> isTagReachableByRemote (cannedRunner '''') repo0 ''v1'' origin = Inr False"
  using empty_output_empty_result [where git = "cannedRunner ''''" and repository = repo0
      and gitNetworkArguments = noNetworkArguments and account = None and remote = origin
      and tag = "''v1''"]
  by (simp add: cannedRunner_def)

text \<open>
  C9. Whatever the runner answers, every name returned by the two local listings
  (\<open>getAllTags\<close> and \<open>getAnnotatedTags\<close>) is a non-empty string without a newline character.
\<close>

theorem local_names_nonempty_no_newline:
  "(getAllTags git repository = Inr tags
      \<longrightarrow> (\<forall>n \<in> set tags. n \<noteq> '''' \<and> LF \<notin> set n))
   \<and> (getAnnotatedTags git repository = Inr annotated
      \<longrightarrow> (\<forall>n \<in> set annotated. n \<noteq> '''' \<and> LF \<notin> set n))"
proof (intro conjI impI ballI)
  fix n assume "getAllTags git repository = Inr tags" and "n \<in> set tags"
  then obtain stdout where "n \<in> set (split_str LF stdout)" and "n \<noteq> ''''"
    by (auto dest!: getAllTags_InrD)
  then show "n \<noteq> ''''" and "LF \<notin> set n"
    by (simp_all add: split_str_no_sep)
next
  fix n assume "getAnnotatedTags git repository = Inr annotated" and "n \<in> set annotated"
  then obtain stdout line where line: "line \<in> set (split_str LF stdout)"
      and n: "n = annotatedTagOfLine line" and ne: "n \<noteq> ''''"
    by (auto dest!: getAnnotatedTags_InrD)
  from n ne obtain rest where "split_str NUL line = n # ''tag'' # rest"
    using annotatedTagOfLine_nonemptyD [of line] by auto
  moreover have "join [NUL] (split_str NUL line) = line"
    by (rule split_str_join)
  ultimately have "set n \<subseteq> set line"
    by (cases rest) auto
  moreover have "LF \<notin> set line"
    using line by (rule split_str_no_sep)
  ultimately show "LF \<notin> set n" by blast
  show "n \<noteq> ''''" by (rule ne)
qed

theorem local_names_nonempty_no_newline_witness:
  "getAllTags (tagRunner [(''v1'', ''tag''), (''v2'', ''commit'')]) repo0 = Inr [''v1'', ''v2'']
   \<and> ''v1'' \<noteq> '''' \<and> LF \<notin> set ''v1'' \<and> ''v2'' \<noteq> '''' \<and> LF \<notin> set ''v2''
   \<and> getAnnotatedTags (tagRunner [(''v1'', ''tag''), (''v2'', ''commit'')]) repo0 = Inr [''v1'']
   \<and> ''v1'' \<noteq> '''' \<and> LF \<notin> set ''v1''"
  using local_names_nonempty_no_newline [where git = "tagRunner [(''v1'', ''tag''), (''v2'', ''commit'')]"
      and repository = repo0 and tags = "[''v1'', ''v2'']" and annotated = "[''v1'']"]
  by (simp add: getAllTags_def getAnnotatedTags_def tagRunner_def tagListing_def
      tagFormatListing_def annotatedFormat_def annotatedTagOfLine_def)

text \<open>
  C6. \<open>isTagReachableByRemote\<close> returns true if and only if at least one line of the runner's
  output (the pieces between newlines) starts with the remote's name followed by a slash. The
  witness evaluates the two examples: \<^verbatim>\<open>origin/main\nupstream/main\n\<close> gives true for the remote
  \<^verbatim>\<open>origin\<close>, and \<^verbatim>\<open>upstream/main\n\<close> alone gives false.
\<close>

theorem isTagReachableByRemote_iff:
  "git [''branch'', ''--remote'', ''--contains'', tag, ''--format=%(refname:short)'']
       (path repository) ''isTagReachableByRemote'' = Inr stdout \<Longrightarrow>
   isTagReachableByRemote git repository tag remote
     = Inr (\<exists>line \<in> set (split_str LF stdout). prefix (name remote @ ''/'') line)"
  by (simp add: isTagReachableByRemote_Inr filter_empty_conv startsWith_prefix)

theorem isTagReachableByRemote_iff_witness:
  "cannedRunner (''origin/main'' @ LF # ''upstream/main'' @ [LF])
     [''branch'', ''--remote'', ''--contains'', ''v1'', ''--format=%(refname:short)'']
     (path repo0) ''isTagReachableByRemote'' = Inr (''origin/main'' @ LF # ''upstream/main'' @ [LF])
   \<and> isTagReachableByRemote (cannedRunner (''origin/main'' @ LF # ''upstream/main'' @ [LF]))
        repo0 ''v1'' origin = Inr True
   \<and> cannedRunner (''upstream/main'' @ [LF])
     [''branch'', ''--remote'', ''--contains'', ''v1'', ''--format=%(refname:short)'']
     (path repo0) ''isTagReachableByRemote'' = Inr (''upstream/main'' @ [LF])
   \<and> isTagReachableByRemote (cannedRunner (''upstream/main'' @ [LF])) repo0 ''v1'' origin
        = Inr False"
  using isTagReachableByRemote_iff [where git = "cannedRunner (''origin/main'' @ LF # ''upstream/main'' @ [LF])"
      and repository = repo0 and tag = "''v1''" and remote = origin
      and stdout = "''origin/main'' @ LF # ''upstream/main'' @ [LF]"]
    isTagReachableByRemote_iff [where git = "cannedRunner (''upstream/main'' @ [LF])"
      and repository = repo0 and tag = "''v1''" and remote = origin
      and stdout = "''upstream/main'' @ [LF]"]
  by (simp add: cannedRunner_def origin_def)

section \<open>Remote listings\<close>

lemma split_str_prepend:
  "sep \<notin> set a \<Longrightarrow>
   split_str sep (a @ rest) = (a @ hd (split_str sep rest)) # tl (split_str sep rest)"
  by (induction a) (auto simp: split_str_not_Nil)

lemma remoteTagOfLine_line:
  "TAB \<notin> set sha \<Longrightarrow> TAB \<notin> set ref \<Longrightarrow>
   remoteTagOfLine (sha @ TAB # ref) =
     (if ref = '''' then None
      else if endsWith ref ''^{}'' then None
      else Some (replace_leading ''{}'' (replace_leading ''refs/tags/'' ref)))"
  by (simp add: remoteTagOfLine_def split_str_append split_str_single)

lemma remoteTagOfLine_empty: "remoteTagOfLine '''' = None"
  by (simp add: remoteTagOfLine_def)

lemma replace_leading_append: "replace_leading p (p @ s) = s"
  by (simp add: replace_leading_def startsWith_def)

lemma replace_leading_id: "\<not> startsWith s p \<Longrightarrow> replace_leading p s = s"
  by (simp add: replace_leading_def)

lemma endsWith_append_same: "endsWith (s @ p) p"
  by (simp add: endsWith_def)

text \<open>
  C2. When the runner's output for \<open>fetchRemoteTags\<close> is
  \<^verbatim>\<open><sha1>\trefs/tags/v1\n<sha2>\trefs/tags/v1^{}\n<sha3>\trefs/tags/v2\n\<close>, whatever the three
  object ids are (they hold no tab and no newline), the result is exactly \<^verbatim>\<open>["v1", "v2"]\<close>:
  the peeled line is suppressed and the lightweight tag is kept.
\<close>

theorem fetchRemoteTags_peeled_example:
  assumes out: "git (gitNetworkArguments repository account @ [''ls-remote'', ''--tags'', name remote])
       (path repository) ''fetchUnpushedTags''
     = Inr (sha1 @ TAB # ''refs/tags/v1'' @ LF # sha2 @ TAB # ''refs/tags/v1^{}'' @ LF
            # sha3 @ TAB # ''refs/tags/v2'' @ [LF])"
    and shas: "TAB \<notin> set (sha1 @ sha2 @ sha3)" "LF \<notin> set (sha1 @ sha2 @ sha3)"
  shows "fetchRemoteTags git gitNetworkArguments repository account remote = Inr [''v1'', ''v2'']"
proof -
  have lines: "split_str LF (sha1 @ TAB # ''refs/tags/v1'' @ LF # sha2 @ TAB # ''refs/tags/v1^{}'' @ LF
            # sha3 @ TAB # ''refs/tags/v2'' @ [LF])
      = [sha1 @ TAB # ''refs/tags/v1'', sha2 @ TAB # ''refs/tags/v1^{}'',
         sha3 @ TAB # ''refs/tags/v2'', '''']"
    using shas by (simp add: split_str_prepend)
  have l1: "remoteTagOfLine (sha1 @ TAB # ''refs/tags/v1'') = Some ''v1''"
    using shas by (simp add: remoteTagOfLine_line endsWith_def replace_leading_def startsWith_def)
  have l2: "remoteTagOfLine (sha2 @ TAB # ''refs/tags/v1^{}'') = None"
    using shas by (simp add: remoteTagOfLine_line endsWith_def)
  have l3: "remoteTagOfLine (sha3 @ TAB # ''refs/tags/v2'') = Some ''v2''"
    using shas by (simp add: remoteTagOfLine_line endsWith_def replace_leading_def startsWith_def)
  have "fetchRemoteTags git gitNetworkArguments repository account remote
      = Inr (map the (filter (\<lambda>tag. tag \<noteq> None)
          (map remoteTagOfLine
            [sha1 @ TAB # ''refs/tags/v1'', sha2 @ TAB # ''refs/tags/v1^{}'',
             sha3 @ TAB # ''refs/tags/v2'', ''''])))"
    using out lines by (simp only: fetchRemoteTags_Inr)
  then show ?thesis
    by (simp add: l1 l2 l3 remoteTagOfLine_empty)
qed

theorem fetchRemoteTags_peeled_example_witness:
  "cannedRunner (''<sha1>'' @ TAB # ''refs/tags/v1'' @ LF # ''<sha2>'' @ TAB # ''refs/tags/v1^{}'' @ LF
            # ''<sha3>'' @ TAB # ''refs/tags/v2'' @ [LF])
     (noNetworkArguments repo0 None @ [''ls-remote'', ''--tags'', name origin])
     (path repo0) ''fetchUnpushedTags''
     = Inr (''<sha1>'' @ TAB # ''refs/tags/v1'' @ LF # ''<sha2>'' @ TAB # ''refs/tags/v1^{}'' @ LF
            # ''<sha3>'' @ TAB # ''refs/tags/v2'' @ [LF])
   \<and> TAB \<notin> set (''<sha1>'' @ ''<sha2>'' @ ''<sha3>'')
   \<and> LF \<notin> set (''<sha1>'' @ ''<sha2>'' @ ''<sha3>'')
   \<and> fetchRemoteTags
        (cannedRunner (''<sha1>'' @ TAB # ''refs/tags/v1'' @ LF # ''<sha2>'' @ TAB # ''refs/tags/v1^{}'' @ LF
            # ''<sha3>'' @ TAB # ''refs/tags/v2'' @ [LF]))
        noNetworkArguments repo0 None origin = Inr [''v1'', ''v2'']"
  using fetchRemoteTags_peeled_example [where git = "cannedRunner (''<sha1>'' @ TAB # ''refs/tags/v1'' @ LF # ''<sha2>'' @ TAB # ''refs/tags/v1^{}'' @ LF
            # ''<sha3>'' @ TAB # ''refs/tags/v2'' @ [LF])"
      and gitNetworkArguments = noNetworkArguments and repository = repo0 and account = None
      and remote = origin and ?sha1.0 = "''<sha1>''" and ?sha2.0 = "''<sha2>''" and ?sha3.0 = "''<sha3>''"]
  by (simp add: cannedRunner_def)

text \<open>
  C10. There is a runner output for which \<open>fetchRemoteTags\<close> returns a sequence holding the
  empty string: a line whose second field is exactly \<^verbatim>\<open>refs/tags/\<close> is kept (the field is not
  empty and is not a peeled entry), and removing the prefix leaves the empty name.
\<close>

theorem fetchRemoteTags_returns_empty_name:
  "fetchRemoteTags (cannedRunner (''5f3c'' @ TAB # ''refs/tags/'' @ [LF]))
     gitNetworkArguments repository account remote = Inr ['''']
   \<and> remoteTagOfLine (''5f3c'' @ TAB # ''refs/tags/'') = Some ''''"
  by (simp add: fetchRemoteTags_def cannedRunner_def remoteTagOfLine_def endsWith_def
      replace_leading_def startsWith_def)

text \<open>
  C3. The claim is that a kept line gives the second field without a leading \<^verbatim>\<open>refs/tags/\<close>
  and without a leading \<^verbatim>\<open>^{}\<close>, so that no returned name begins with \<^verbatim>\<open>^{}\<close>. The pattern
  of the second replacement leaves the caret unescaped, so the code removes a leading \<^verbatim>\<open>{}\<close>
  instead: the field \<^verbatim>\<open>refs/tags/^{}v1\<close> gives the name \<^verbatim>\<open>^{}v1\<close>, and the field
  \<^verbatim>\<open>refs/tags/{}v1\<close> gives \<^verbatim>\<open>v1\<close>.
\<close>

theorem fetchRemoteTags_keeps_leading_marker:
  "fetchRemoteTags (cannedRunner (''5f3c'' @ TAB # ''refs/tags/^{}v1'' @ [LF]))
     gitNetworkArguments repository account remote = Inr [''^{}v1'']
   \<and> fetchRemoteTags (cannedRunner (''5f3c'' @ TAB # ''refs/tags/{}v1'' @ [LF]))
     gitNetworkArguments repository account remote = Inr [''v1'']"
  by (simp add: fetchRemoteTags_def cannedRunner_def remoteTagOfLine_def endsWith_def
      replace_leading_def startsWith_def)

section \<open>Normalization of the returned names\<close>

lemma fetched_name_not_peeled:
  assumes "remoteTagOfLine line = Some n" shows "\<not> endsWith n ''^{}''"
proof -
  from assms obtain sha f rest where f: "\<not> endsWith f ''^{}''"
      and n: "n = replace_leading ''{}'' (replace_leading ''refs/tags/'' f)"
    by (auto dest!: remoteTagOfLine_SomeD)
  have "suffix n f"
    unfolding n using replace_leading_suffix suffix_order.trans by blast
  with f show ?thesis by (rule suffix_not_endsWith [rotated])
qed

lemma fetched_name_refField:
  assumes "remoteTagOfLine line = Some n"
  shows "\<exists>f. refField line = Some f
     \<and> n = replace_leading ''{}'' (replace_leading ''refs/tags/'' f)"
  using assms by (auto dest!: remoteTagOfLine_SomeD simp: refField_def)

lemma annotated_name_firstField:
  assumes "annotatedTagOfLine line \<noteq> ''''"
  shows "annotatedTagOfLine line = firstField line"
  using annotatedTagOfLine_nonemptyD [OF assms] by (auto simp: firstField_def)

text \<open>
  C1, as amended. The claim is that every name returned by any operation, for every runner
  output, neither starts with \<^verbatim>\<open>refs/tags/\<close> nor ends with \<^verbatim>\<open>^{}\<close>. What holds:

  \<^item> no name returned by \<open>fetchRemoteTags\<close> ends with \<^verbatim>\<open>^{}\<close>, whatever the runner answers;
  \<^item> \<open>fetchRemoteTags\<close> removes one leading \<^verbatim>\<open>refs/tags/\<close>: its names are normalized when
    the second field of every line, after that one removal, starts neither with
    \<^verbatim>\<open>refs/tags/\<close> nor with \<^verbatim>\<open>{}\<close>;
  \<^item> \<open>getAllTags\<close> and \<open>getAnnotatedTags\<close> do not normalize: their names are normalized when
    the lines of the runner's output (for the formatted listing, the first fields of the
    lines) are.
\<close>

theorem returned_names_normalized:
  "(fetchRemoteTags git gitNetworkArguments repository account remote = Inr remoteTags
      \<longrightarrow> (\<forall>n \<in> set remoteTags. \<not> endsWith n ''^{}''))
   \<and> (git (gitNetworkArguments repository account @ [''ls-remote'', ''--tags'', name remote])
          (path repository) ''fetchUnpushedTags'' = Inr listing
       \<and> (\<forall>line \<in> set (split_str LF listing). \<forall>f. refField line = Some f \<longrightarrow>
             \<not> startsWith (replace_leading ''refs/tags/'' f) ''refs/tags/''
             \<and> \<not> startsWith (replace_leading ''refs/tags/'' f) ''{}'')
       \<and> fetchRemoteTags git gitNetworkArguments repository account remote = Inr remoteTags
      \<longrightarrow> (\<forall>n \<in> set remoteTags. isTagName n))
   \<and> (git [''tag''] (path repository) ''getAllTags'' = Inr plain
       \<and> (\<forall>line \<in> set (split_str LF plain). isTagName line)
       \<and> getAllTags git repository = Inr tags
      \<longrightarrow> (\<forall>n \<in> set tags. isTagName n))
   \<and> (git [''tag'', ''--format=%(refname:strip=2)%00%(objecttype)''] (path repository)
          ''getAnnotatedTags'' = Inr formatted
       \<and> (\<forall>line \<in> set (split_str LF formatted). isTagName (firstField line))
       \<and> getAnnotatedTags git repository = Inr annotated
      \<longrightarrow> (\<forall>n \<in> set annotated. isTagName n))"
proof (intro conjI impI ballI)
  fix n assume "fetchRemoteTags git gitNetworkArguments repository account remote = Inr remoteTags"
    and "n \<in> set remoteTags"
  then obtain stdout line where "remoteTagOfLine line = Some n"
    by (auto dest!: fetchRemoteTags_InrD simp: mem_collected)
  then show "\<not> endsWith n ''^{}''" by (rule fetched_name_not_peeled)
next
  fix n
  assume a: "git (gitNetworkArguments repository account @ [''ls-remote'', ''--tags'', name remote])
          (path repository) ''fetchUnpushedTags'' = Inr listing
       \<and> (\<forall>line \<in> set (split_str LF listing). \<forall>f. refField line = Some f \<longrightarrow>
             \<not> startsWith (replace_leading ''refs/tags/'' f) ''refs/tags/''
             \<and> \<not> startsWith (replace_leading ''refs/tags/'' f) ''{}'')
       \<and> fetchRemoteTags git gitNetworkArguments repository account remote = Inr remoteTags"
    and n: "n \<in> set remoteTags"
  from a have "remoteTags = map the (filter (\<lambda>tag. tag \<noteq> None)
      (map remoteTagOfLine (split_str LF listing)))"
    by (auto dest!: fetchRemoteTags_InrD)
  with n obtain line where line: "line \<in> set (split_str LF listing)"
      and some: "remoteTagOfLine line = Some n"
    by (auto simp: mem_collected)
  from some obtain f where f: "refField line = Some f"
      and nf: "n = replace_leading ''{}'' (replace_leading ''refs/tags/'' f)"
    using fetched_name_refField by blast
  from a line f have clear: "\<not> startsWith (replace_leading ''refs/tags/'' f) ''refs/tags/''"
      "\<not> startsWith (replace_leading ''refs/tags/'' f) ''{}''"
    by blast+
  from clear(2) have "n = replace_leading ''refs/tags/'' f"
    unfolding nf by (rule replace_leading_id)
  with clear(1) fetched_name_not_peeled [OF some] show "isTagName n"
    by (simp add: isTagName_def)
next
  fix n
  assume "git [''tag''] (path repository) ''getAllTags'' = Inr plain
       \<and> (\<forall>line \<in> set (split_str LF plain). isTagName line)
       \<and> getAllTags git repository = Inr tags"
    and "n \<in> set tags"
  then show "isTagName n"
    by (auto dest!: getAllTags_InrD)
next
  fix n
  assume a: "git [''tag'', ''--format=%(refname:strip=2)%00%(objecttype)''] (path repository)
          ''getAnnotatedTags'' = Inr formatted
       \<and> (\<forall>line \<in> set (split_str LF formatted). isTagName (firstField line))
       \<and> getAnnotatedTags git repository = Inr annotated"
    and n: "n \<in> set annotated"
  from a have "annotated = filter (\<lambda>tag. tag \<noteq> '''')
      (map annotatedTagOfLine (split_str LF formatted))"
    by (auto dest!: getAnnotatedTags_InrD simp: annotatedFormat_eq)
  with n obtain line where line: "line \<in> set (split_str LF formatted)"
      and "n = annotatedTagOfLine line" and "n \<noteq> ''''"
    by auto
  then have "n = firstField line"
    using annotated_name_firstField by blast
  with a line show "isTagName n" by blast
qed

theorem returned_names_normalized_witness:
  "fetchRemoteTags (cannedRunner (''5f3c'' @ TAB # ''refs/tags/v1'' @ [LF]))
     noNetworkArguments repo0 None origin = Inr [''v1'']
   \<and> split_str LF (''5f3c'' @ TAB # ''refs/tags/v1'' @ [LF]) = [''5f3c'' @ TAB # ''refs/tags/v1'', '''']
   \<and> refField (''5f3c'' @ TAB # ''refs/tags/v1'') = Some ''refs/tags/v1''
   \<and> refField '''' = None
   \<and> replace_leading ''refs/tags/'' ''refs/tags/v1'' = ''v1''
   \<and> \<not> endsWith ''v1'' ''^{}''
   \<and> isTagName ''v1''
   \<and> getAllTags (tagRunner [(''v1'', ''tag'')]) repo0 = Inr [''v1'']
   \<and> split_str LF (tagListing [(''v1'', ''tag'')]) = [''v1'', '''']
   \<and> isTagName ''''
   \<and> getAnnotatedTags (tagRunner [(''v1'', ''tag'')]) repo0 = Inr [''v1'']
   \<and> map firstField (split_str LF (tagFormatListing [(''v1'', ''tag'')])) = [''v1'', '''']"
proof -
  let ?listing = "''5f3c'' @ TAB # ''refs/tags/v1'' @ [LF]"
  let ?state = "[(''v1'', ''tag'')]"
  note remote_case = returned_names_normalized [where git = "cannedRunner ?listing"
      and gitNetworkArguments = noNetworkArguments and repository = repo0 and account = None
      and remote = origin and remoteTags = "[''v1'']" and listing = ?listing]
  note local_case = returned_names_normalized [where git = "tagRunner ?state"
      and repository = repo0 and tags = "[''v1'']" and annotated = "[''v1'']"
      and plain = "tagListing ?state" and formatted = "tagFormatListing ?state"]
  have fetched: "fetchRemoteTags (cannedRunner ?listing) noNetworkArguments repo0 None origin
      = Inr [''v1'']"
    by (simp add: fetchRemoteTags_def cannedRunner_def remoteTagOfLine_def
        replace_leading_def startsWith_def endsWith_def)
  have lines: "split_str LF ?listing = [''5f3c'' @ TAB # ''refs/tags/v1'', '''']"
    by simp
  have fields: "refField (''5f3c'' @ TAB # ''refs/tags/v1'') = Some ''refs/tags/v1''"
      "refField '''' = None"
    by (simp_all add: refField_def)
  have stripped: "replace_leading ''refs/tags/'' ''refs/tags/v1'' = ''v1''"
    by (simp add: replace_leading_def startsWith_def)
  have listed: "getAllTags (tagRunner ?state) repo0 = Inr [''v1'']"
      "split_str LF (tagListing ?state) = [''v1'', '''']"
    by (simp_all add: getAllTags_def tagRunner_def tagListing_def)
  have annotated: "getAnnotatedTags (tagRunner ?state) repo0 = Inr [''v1'']"
      "map firstField (split_str LF (tagFormatListing ?state)) = [''v1'', '''']"
    by (simp_all add: getAnnotatedTags_def tagRunner_def tagFormatListing_def annotatedFormat_def
        annotatedTagOfLine_def firstField_def)
  have "\<forall>n \<in> set [''v1'']. \<not> endsWith n ''^{}''"
    using remote_case fetched by blast
  then have unpeeled: "\<not> endsWith ''v1'' ''^{}''" by simp
  have answered: "cannedRunner ?listing
      (noNetworkArguments repo0 None @ [''ls-remote'', ''--tags'', name origin])
      (path repo0) ''fetchUnpushedTags'' = Inr ?listing"
    by (simp add: cannedRunner_def)
  have once: "\<forall>line \<in> set (split_str LF ?listing). \<forall>f. refField line = Some f \<longrightarrow>
      \<not> startsWith (replace_leading ''refs/tags/'' f) ''refs/tags/''
      \<and> \<not> startsWith (replace_leading ''refs/tags/'' f) ''{}''"
    unfolding lines using fields stripped by (simp add: startsWith_def)
  have "\<forall>n \<in> set [''v1'']. isTagName n"
    using remote_case answered once fetched by blast
  then have clean: "isTagName ''v1''" by simp
  have empty: "isTagName ''''"
    by (simp add: isTagName_def startsWith_def endsWith_def)
  have plain_answered: "tagRunner ?state [''tag''] (path repo0) ''getAllTags''
      = Inr (tagListing ?state)"
    by (simp add: tagRunner_def)
  have plain_clean: "\<forall>line \<in> set (split_str LF (tagListing ?state)). isTagName line"
    unfolding listed using clean empty by simp
  have local_clean: "\<forall>n \<in> set [''v1'']. isTagName n"
    using local_case plain_answered plain_clean listed(1) by blast
  have formatted_answered: "tagRunner ?state
      [''tag'', ''--format=%(refname:strip=2)%00%(objecttype)''] (path repo0) ''getAnnotatedTags''
      = Inr (tagFormatListing ?state)"
    by (simp add: tagRunner_def)
  have formatted_clean:
    "\<forall>line \<in> set (split_str LF (tagFormatListing ?state)). isTagName (firstField line)"
    using annotated(2) clean empty
    by (metis (no_types, lifting) imageI list.set_map set_ConsD empty_iff empty_set)
  have annotated_clean: "\<forall>n \<in> set [''v1'']. isTagName n"
    using local_case formatted_answered formatted_clean annotated(1) by blast
  show ?thesis
    using fetched lines fields stripped unpeeled clean listed empty annotated
      local_clean annotated_clean
    by blast
qed

text \<open>
  C1, the claim as stated fails: \<open>getAllTags\<close> returns the line \<^verbatim>\<open>refs/tags/v1^{}\<close> as it
  is, and \<open>fetchRemoteTags\<close> turns the field \<^verbatim>\<open>refs/tags/refs/tags/v1\<close> into the name
  \<^verbatim>\<open>refs/tags/v1\<close>.
\<close>

theorem names_not_always_normalized:
  "getAllTags (cannedRunner (''refs/tags/v1^{}'' @ [LF])) repo0 = Inr [''refs/tags/v1^{}'']
   \<and> startsWith ''refs/tags/v1^{}'' ''refs/tags/''
   \<and> endsWith ''refs/tags/v1^{}'' ''^{}''
   \<and> fetchRemoteTags (cannedRunner (''5f3c'' @ TAB # ''refs/tags/refs/tags/v1'' @ [LF]))
        noNetworkArguments repo0 None origin = Inr [''refs/tags/v1'']
   \<and> startsWith ''refs/tags/v1'' ''refs/tags/''
   \<and> \<not> isTagName ''refs/tags/v1^{}''
   \<and> \<not> isTagName ''refs/tags/v1''"
  by (simp add: fetchRemoteTags_def getAllTags_def cannedRunner_def remoteTagOfLine_def
      replace_leading_def startsWith_def endsWith_def isTagName_def)

section \<open>The annotated-tag filter\<close>

lemma annotatedTagOfLine_fields:
  "annotatedTagOfLine line =
     (if line \<noteq> '''' \<and> secondField line = Some ''tag'' then firstField line else '''')"
  by (auto simp: annotatedTagOfLine_def firstField_def secondField_def split: list.splits)

lemma annotated_filter_fields:
  "filter (\<lambda>tag. tag \<noteq> '''') (map annotatedTagOfLine ls)
     = map firstField
         (filter (\<lambda>line. line \<noteq> '''' \<and> secondField line = Some ''tag'' \<and> firstField line \<noteq> '''') ls)"
  by (induction ls) (simp_all add: annotatedTagOfLine_fields)

text \<open>
  C5, as amended. \<open>getAnnotatedTags\<close> splits each non-empty line of the runner's output on
  the null byte and keeps the first field exactly when the second field is literally
  \<^verbatim>\<open>tag\<close> and the first field is not empty; every other line is discarded. The witness
  evaluates the example: \<^verbatim>\<open>v1\0tag\nv2\0commit\n\<close> gives exactly \<^verbatim>\<open>["v1"]\<close>.
\<close>

theorem getAnnotatedTags_keeps_tag_lines:
  "git [''tag'', ''--format=%(refname:strip=2)%00%(objecttype)''] (path repository)
       ''getAnnotatedTags'' = Inr stdout \<Longrightarrow>
   getAnnotatedTags git repository
     = Inr (map firstField
         (filter (\<lambda>line. line \<noteq> '''' \<and> secondField line = Some ''tag'' \<and> firstField line \<noteq> '''')
            (split_str LF stdout)))"
  by (simp add: getAnnotatedTags_Inr annotatedFormat_eq annotated_filter_fields)

theorem getAnnotatedTags_keeps_tag_lines_witness:
  "cannedRunner (''v1'' @ NUL # ''tag'' @ LF # ''v2'' @ NUL # ''commit'' @ [LF])
     [''tag'', ''--format=%(refname:strip=2)%00%(objecttype)''] (path repo0) ''getAnnotatedTags''
     = Inr (''v1'' @ NUL # ''tag'' @ LF # ''v2'' @ NUL # ''commit'' @ [LF])
   \<and> getAnnotatedTags (cannedRunner (''v1'' @ NUL # ''tag'' @ LF # ''v2'' @ NUL # ''commit'' @ [LF]))
        repo0 = Inr [''v1'']"
  using getAnnotatedTags_keeps_tag_lines [where git = "cannedRunner (''v1'' @ NUL # ''tag'' @ LF # ''v2'' @ NUL # ''commit'' @ [LF])"
      and repository = repo0
      and stdout = "''v1'' @ NUL # ''tag'' @ LF # ''v2'' @ NUL # ''commit'' @ [LF]"]
  by (simp add: cannedRunner_def firstField_def secondField_def)

text \<open>
  C5, the claim as stated fails: the line \<^verbatim>\<open>\0tag\<close> has the second field \<^verbatim>\<open>tag\<close>, so the
  specification's wording keeps its (empty) first field, and \<open>getAnnotatedTags\<close> returns
  nothing for it.
\<close>

theorem getAnnotatedTags_drops_empty_first_field:
  "getAnnotatedTags (cannedRunner (NUL # ''tag'' @ [LF])) repo0 = Inr []
   \<and> split_str NUL (NUL # ''tag'') = ['''', ''tag'']
   \<and> listAnnotatedTags_spec (NUL # ''tag'' @ [LF]) = ['''']
   \<and> getAnnotatedTags (cannedRunner (NUL # ''tag'' @ [LF])) repo0
       \<noteq> Inr (listAnnotatedTags_spec (NUL # ''tag'' @ [LF]))"
  by (simp add: getAnnotatedTags_def cannedRunner_def annotatedTagOfLine_def
      listAnnotatedTags_spec_def firstField_def secondField_def)

section \<open>Uniqueness in remote listings\<close>

lemma ref_not_peeled:
  assumes "\<not> endsWith n ''^{}''" shows "\<not> endsWith (''refs/tags/'' @ n) ''^{}''"
proof
  assume "endsWith (''refs/tags/'' @ n) ''^{}''"
  then have "suffix ''^{}'' (''refs/tags/'' @ n)" by (simp only: endsWith_suffix)
  then consider "suffix ''^{}'' n"
    | m where "''^{}'' = m @ n" and "suffix m ''refs/tags/''"
    unfolding suffix_append by blast
  then show False
  proof cases
    case 1
    with assms show False by (simp add: endsWith_suffix)
  next
    case 2
    show False
    proof (cases m)
      case Nil
      with 2 assms show False by (simp add: endsWith_def)
    next
      case (Cons c cs)
      with 2 have "c = CHR ''^''" by simp
      moreover have "set m \<subseteq> set ''refs/tags/''"
        using 2 by (meson set_mono_suffix)
      ultimately show False using Cons by auto
    qed
  qed
qed

lemma remoteTagOfLine_unpeeled:
  assumes "TAB \<notin> set sha" and "TAB \<notin> set n"
    and "\<not> endsWith n ''^{}''" and "\<not> startsWith n ''{}''"
  shows "remoteTagOfLine (sha @ TAB # ''refs/tags/'' @ n) = Some n"
proof -
  have "remoteTagOfLine (sha @ TAB # (''refs/tags/'' @ n))
      = Some (replace_leading ''{}'' (replace_leading ''refs/tags/'' (''refs/tags/'' @ n)))"
    using assms ref_not_peeled [of n]
    by (subst remoteTagOfLine_line) auto
  also have "\<dots> = Some n"
    by (simp only: replace_leading_append replace_leading_id [OF assms(4)])
  finally show ?thesis by simp
qed

lemma remoteTagOfLine_peeled:
  assumes "TAB \<notin> set sha" and "TAB \<notin> set n"
  shows "remoteTagOfLine (sha @ TAB # ''refs/tags/'' @ n @ ''^{}'') = None"
proof -
  have "endsWith ((''refs/tags/'' @ n) @ ''^{}'') ''^{}''"
    by (rule endsWith_append_same)
  then have "remoteTagOfLine (sha @ TAB # ((''refs/tags/'' @ n) @ ''^{}'')) = None"
    using assms by (subst remoteTagOfLine_line) auto
  then show ?thesis by simp
qed

lemma split_lsRemoteLines:
  assumes "plainRemoteTag t"
  shows "split_str LF (lsRemoteLines t @ rest) =
     (case t of
        Lightweight sha n \<Rightarrow> [sha @ TAB # ''refs/tags/'' @ n]
      | Annotated sha n commitSha \<Rightarrow>
          [sha @ TAB # ''refs/tags/'' @ n, commitSha @ TAB # ''refs/tags/'' @ n @ ''^{}''])
     @ split_str LF rest"
proof (cases t)
  case (Lightweight sha n)
  with assms have "LF \<notin> set (sha @ TAB # ''refs/tags/'' @ n)"
    by (simp add: plainRemoteTag_def)
  from split_str_append [OF this, of rest] Lightweight show ?thesis by simp
next
  case (Annotated sha n commitSha)
  with assms have a: "LF \<notin> set (sha @ TAB # ''refs/tags/'' @ n)"
    and b: "LF \<notin> set (commitSha @ TAB # ''refs/tags/'' @ n @ ''^{}'')"
    by (simp_all add: plainRemoteTag_def)
  from split_str_append [OF a, of "commitSha @ TAB # ''refs/tags/'' @ n @ ''^{}'' @ LF # rest"]
    split_str_append [OF b, of rest] Annotated
  show ?thesis by simp
qed

lemma collect_lsRemoteLines:
  assumes "plainRemoteTag t"
  shows "map the (filter (\<lambda>tag. tag \<noteq> None) (map remoteTagOfLine
     (case t of
        Lightweight sha n \<Rightarrow> [sha @ TAB # ''refs/tags/'' @ n]
      | Annotated sha n commitSha \<Rightarrow>
          [sha @ TAB # ''refs/tags/'' @ n, commitSha @ TAB # ''refs/tags/'' @ n @ ''^{}''])))
     = [remoteTagName t]"
proof (cases t)
  case (Lightweight sha n)
  with assms have "remoteTagOfLine (sha @ TAB # ''refs/tags/'' @ n) = Some n"
    by (intro remoteTagOfLine_unpeeled) (simp_all add: plainRemoteTag_def)
  with Lightweight show ?thesis by simp
next
  case (Annotated sha n commitSha)
  with assms have "remoteTagOfLine (sha @ TAB # ''refs/tags/'' @ n) = Some n"
    by (intro remoteTagOfLine_unpeeled) (simp_all add: plainRemoteTag_def)
  moreover from Annotated assms
  have "remoteTagOfLine (commitSha @ TAB # ''refs/tags/'' @ n @ ''^{}'') = None"
    by (intro remoteTagOfLine_peeled) (simp_all add: plainRemoteTag_def)
  ultimately show ?thesis using Annotated by simp
qed

lemma collect_lsRemoteOutput:
  assumes "\<forall>t \<in> set ts. plainRemoteTag t"
  shows "map the (filter (\<lambda>tag. tag \<noteq> None)
           (map remoteTagOfLine (split_str LF (lsRemoteOutput ts))))
         = map remoteTagName ts"
  using assms
proof (induction ts)
  case Nil
  show ?case by (simp add: lsRemoteOutput_def remoteTagOfLine_empty)
next
  case (Cons t ts)
  have out: "lsRemoteOutput (t # ts) = lsRemoteLines t @ lsRemoteOutput ts"
    by (simp add: lsRemoteOutput_def)
  from Cons.prems have t: "plainRemoteTag t" by simp
  from Cons have rest: "map the (filter (\<lambda>tag. tag \<noteq> None)
           (map remoteTagOfLine (split_str LF (lsRemoteOutput ts)))) = map remoteTagName ts"
    by simp
  show ?case
    unfolding out split_lsRemoteLines [OF t]
    using collect_lsRemoteLines [OF t] rest by simp
qed

text \<open>
  C4, as amended. \<open>fetchRemoteTags\<close> removes no duplicates of its own; it drops the peeled
  lines. When the runner's output is a remote listing in which every tag has one line
  \<^verbatim>\<open><objectId>\trefs/tags/<name>\<close>, an annotated tag being followed by its peeled line, and the
  names are pairwise distinct (object ids and names without tab or newline, names neither
  ending with \<^verbatim>\<open>^{}\<close> nor starting with \<^verbatim>\<open>{}\<close>), the result is exactly the list of the names, in
  the order of the listing, and holds no duplicate.
\<close>

theorem fetchRemoteTags_distinct_listing:
  assumes "git (gitNetworkArguments repository account @ [''ls-remote'', ''--tags'', name remote])
       (path repository) ''fetchUnpushedTags'' = Inr (lsRemoteOutput ts)"
    and "\<forall>t \<in> set ts. plainRemoteTag t"
    and "distinct (map remoteTagName ts)"
  shows "\<exists>tags. fetchRemoteTags git gitNetworkArguments repository account remote = Inr tags
     \<and> tags = map remoteTagName ts \<and> distinct tags"
proof -
  have "fetchRemoteTags git gitNetworkArguments repository account remote
      = Inr (map the (filter (\<lambda>tag. tag \<noteq> None)
          (map remoteTagOfLine (split_str LF (lsRemoteOutput ts)))))"
    using assms(1) by (rule fetchRemoteTags_Inr)
  then have "fetchRemoteTags git gitNetworkArguments repository account remote
      = Inr (map remoteTagName ts)"
    by (simp only: collect_lsRemoteOutput [OF assms(2)])
  with assms(3) show ?thesis by simp
qed

theorem fetchRemoteTags_distinct_listing_witness:
  "cannedRunner (lsRemoteOutput [Annotated ''a1'' ''v1'' ''c1'', Lightweight ''a2'' ''v2''])
     (noNetworkArguments repo0 None @ [''ls-remote'', ''--tags'', name origin])
     (path repo0) ''fetchUnpushedTags''
     = Inr (lsRemoteOutput [Annotated ''a1'' ''v1'' ''c1'', Lightweight ''a2'' ''v2''])
   \<and> lsRemoteOutput [Annotated ''a1'' ''v1'' ''c1'', Lightweight ''a2'' ''v2'']
     = ''a1'' @ TAB # ''refs/tags/v1'' @ LF # ''c1'' @ TAB # ''refs/tags/v1^{}'' @ LF
       # ''a2'' @ TAB # ''refs/tags/v2'' @ [LF]
   \<and> plainRemoteTag (Annotated ''a1'' ''v1'' ''c1'')
   \<and> plainRemoteTag (Lightweight ''a2'' ''v2'')
   \<and> distinct (map remoteTagName [Annotated ''a1'' ''v1'' ''c1'', Lightweight ''a2'' ''v2''])
   \<and> fetchRemoteTags
        (cannedRunner (lsRemoteOutput [Annotated ''a1'' ''v1'' ''c1'', Lightweight ''a2'' ''v2'']))
        noNetworkArguments repo0 None origin = Inr [''v1'', ''v2'']
   \<and> distinct [''v1'', ''v2'']"
proof -
  let ?ts = "[Annotated ''a1'' ''v1'' ''c1'', Lightweight ''a2'' ''v2'']"
  have answered: "cannedRunner (lsRemoteOutput ?ts)
      (noNetworkArguments repo0 None @ [''ls-remote'', ''--tags'', name origin])
      (path repo0) ''fetchUnpushedTags'' = Inr (lsRemoteOutput ?ts)"
    by (simp add: cannedRunner_def)
  have rendered: "lsRemoteOutput ?ts
     = ''a1'' @ TAB # ''refs/tags/v1'' @ LF # ''c1'' @ TAB # ''refs/tags/v1^{}'' @ LF
       # ''a2'' @ TAB # ''refs/tags/v2'' @ [LF]"
    by (simp add: lsRemoteOutput_def)
  have plain: "plainRemoteTag (Annotated ''a1'' ''v1'' ''c1'')"
      "plainRemoteTag (Lightweight ''a2'' ''v2'')"
    by (simp_all add: plainRemoteTag_def startsWith_def endsWith_def)
  then have all_plain: "\<forall>t \<in> set ?ts. plainRemoteTag t" by simp
  have names: "distinct (map remoteTagName ?ts)" by simp
  from fetchRemoteTags_distinct_listing [where git = "cannedRunner (lsRemoteOutput ?ts)"
      and gitNetworkArguments = noNetworkArguments and repository = repo0 and account = None
      and remote = origin and ts = ?ts, OF answered all_plain names]
  have "fetchRemoteTags (cannedRunner (lsRemoteOutput ?ts)) noNetworkArguments repo0 None origin
      = Inr [''v1'', ''v2''] \<and> distinct [''v1'', ''v2'']"
    by simp
  with answered rendered plain names show ?thesis by blast
qed

text \<open>
  C4, the claim as stated fails: two unpeeled lines with the same reference give the same
  name twice.
\<close>

theorem fetchRemoteTags_repeats_name:
  "fetchRemoteTags
     (cannedRunner (''a1'' @ TAB # ''refs/tags/v1'' @ LF # ''b2'' @ TAB # ''refs/tags/v1'' @ [LF]))
     noNetworkArguments repo0 None origin = Inr [''v1'', ''v1'']
   \<and> \<not> distinct [''v1'', ''v1'']"
  by (simp add: fetchRemoteTags_def cannedRunner_def remoteTagOfLine_def
      replace_leading_def startsWith_def endsWith_def)

section \<open>The two local listings of one repository state\<close>

lemma split_tagListing:
  assumes "\<forall>(n, objectType) \<in> set ts. LF \<notin> set n"
  shows "split_str LF (tagListing ts) = map fst ts @ ['''']"
  using assms
proof (induction ts)
  case Nil
  show ?case by (simp add: tagListing_def)
next
  case (Cons e ts)
  obtain n objectType where e: "e = (n, objectType)" by (cases e)
  have "tagListing (e # ts) = n @ LF # tagListing ts"
    by (simp add: tagListing_def e)
  moreover from Cons.prems e have "LF \<notin> set n" by simp
  ultimately show ?case
    using Cons by (simp add: split_str_append e)
qed

lemma split_tagFormatListing:
  assumes "\<forall>(n, objectType) \<in> set ts. LF \<notin> set n \<and> LF \<notin> set objectType"
  shows "split_str LF (tagFormatListing ts)
     = map (\<lambda>(n, objectType). n @ NUL # objectType) ts @ ['''']"
  using assms
proof (induction ts)
  case Nil
  show ?case by (simp add: tagFormatListing_def)
next
  case (Cons e ts)
  obtain n objectType where e: "e = (n, objectType)" by (cases e)
  have "tagFormatListing (e # ts) = (n @ NUL # objectType) @ LF # tagFormatListing ts"
    by (simp add: tagFormatListing_def e)
  moreover from Cons.prems e have "LF \<notin> set (n @ NUL # objectType)" by simp
  ultimately have "split_str LF (tagFormatListing (e # ts))
      = (n @ NUL # objectType) # split_str LF (tagFormatListing ts)"
    by (metis split_str_append)
  with Cons show ?case by (simp add: e)
qed

lemma annotatedTagOfLine_entry:
  assumes "NUL \<notin> set n"
  shows "annotatedTagOfLine (n @ NUL # objectType) = n
     \<or> annotatedTagOfLine (n @ NUL # objectType) = ''''"
proof -
  obtain p ps where "split_str NUL objectType = p # ps"
    using split_str_not_Nil [of NUL objectType] by (cases "split_str NUL objectType") auto
  with assms have "split_str NUL (n @ NUL # objectType) = n # p # ps"
    by (simp add: split_str_append)
  then show ?thesis by (simp add: annotatedTagOfLine_def)
qed

text \<open>
  C7. When the runner answers the plain listing with one name per line and the formatted
  listing with \<^verbatim>\<open>name\0objectType\<close> per line for the same tags (names without newline or null
  byte, object types without newline), both listings succeed and every name returned by
  \<open>getAnnotatedTags\<close> is also returned by \<open>getAllTags\<close>.
\<close>

theorem annotated_subset_local:
  assumes plain: "git [''tag''] (path repository) ''getAllTags'' = Inr (tagListing ts)"
    and formatted: "git [''tag'', ''--format=%(refname:strip=2)%00%(objecttype)'']
        (path repository) ''getAnnotatedTags'' = Inr (tagFormatListing ts)"
    and names: "\<forall>(n, objectType) \<in> set ts.
        LF \<notin> set n \<and> NUL \<notin> set n \<and> LF \<notin> set objectType"
  shows "\<exists>tags annotated. getAllTags git repository = Inr tags
     \<and> getAnnotatedTags git repository = Inr annotated
     \<and> set annotated \<subseteq> set tags"
proof -
  let ?tags = "filter (\<lambda>s. s \<noteq> '''') (split_str LF (tagListing ts))"
  let ?annotated = "filter (\<lambda>tag. tag \<noteq> '''')
      (map annotatedTagOfLine (split_str LF (tagFormatListing ts)))"
  have all: "getAllTags git repository = Inr ?tags"
    using plain by (rule getAllTags_Inr)
  have ann: "getAnnotatedTags git repository = Inr ?annotated"
    using formatted by (simp add: getAnnotatedTags_Inr annotatedFormat_eq)
  have lines: "split_str LF (tagListing ts) = map fst ts @ ['''']"
    using names by (intro split_tagListing) auto
  have entries: "split_str LF (tagFormatListing ts)
      = map (\<lambda>(n, objectType). n @ NUL # objectType) ts @ ['''']"
    using names by (intro split_tagFormatListing) auto
  have "set ?annotated \<subseteq> set ?tags"
  proof
    fix x assume "x \<in> set ?annotated"
    then have x: "x \<noteq> ''''"
      and "x \<in> set (map annotatedTagOfLine (split_str LF (tagFormatListing ts)))"
      by simp_all
    then obtain line where line: "line \<in> set (split_str LF (tagFormatListing ts))"
      and xl: "x = annotatedTagOfLine line"
      by auto
    from x xl have "line \<noteq> ''''" by (auto simp: annotatedTagOfLine_def)
    with line obtain n objectType where e: "(n, objectType) \<in> set ts"
      and l: "line = n @ NUL # objectType"
      unfolding entries by auto
    from e names have "NUL \<notin> set n" by auto
    from annotatedTagOfLine_entry [OF this, of objectType] x xl l have "x = n" by auto
    with e x show "x \<in> set ?tags"
      unfolding lines by force
  qed
  with all ann show ?thesis by blast
qed

theorem annotated_subset_local_witness:
  "tagRunner [(''v1'', ''tag''), (''v2'', ''commit'')] [''tag''] (path repo0) ''getAllTags''
     = Inr (tagListing [(''v1'', ''tag''), (''v2'', ''commit'')])
   \<and> tagRunner [(''v1'', ''tag''), (''v2'', ''commit'')]
        [''tag'', ''--format=%(refname:strip=2)%00%(objecttype)''] (path repo0) ''getAnnotatedTags''
     = Inr (tagFormatListing [(''v1'', ''tag''), (''v2'', ''commit'')])
   \<and> tagListing [(''v1'', ''tag''), (''v2'', ''commit'')] = ''v1'' @ LF # ''v2'' @ [LF]
   \<and> tagFormatListing [(''v1'', ''tag''), (''v2'', ''commit'')]
     = ''v1'' @ NUL # ''tag'' @ LF # ''v2'' @ NUL # ''commit'' @ [LF]
   \<and> LF \<notin> set ''v1'' \<and> NUL \<notin> set ''v1'' \<and> LF \<notin> set ''tag''
   \<and> LF \<notin> set ''v2'' \<and> NUL \<notin> set ''v2'' \<and> LF \<notin> set ''commit''
   \<and> getAllTags (tagRunner [(''v1'', ''tag''), (''v2'', ''commit'')]) repo0 = Inr [''v1'', ''v2'']
   \<and> getAnnotatedTags (tagRunner [(''v1'', ''tag''), (''v2'', ''commit'')]) repo0 = Inr [''v1'']
   \<and> set [''v1''] \<subseteq> set [''v1'', ''v2'']"
proof -
  let ?ts = "[(''v1'', ''tag''), (''v2'', ''commit'')]"
  have plain: "tagRunner ?ts [''tag''] (path repo0) ''getAllTags'' = Inr (tagListing ?ts)"
    by (simp add: tagRunner_def)
  have formatted: "tagRunner ?ts [''tag'', ''--format=%(refname:strip=2)%00%(objecttype)'']
      (path repo0) ''getAnnotatedTags'' = Inr (tagFormatListing ?ts)"
    by (simp add: tagRunner_def)
  have names: "\<forall>(n, objectType) \<in> set ?ts.
      LF \<notin> set n \<and> NUL \<notin> set n \<and> LF \<notin> set objectType"
    by simp
  have texts: "tagListing ?ts = ''v1'' @ LF # ''v2'' @ [LF]"
      "tagFormatListing ?ts = ''v1'' @ NUL # ''tag'' @ LF # ''v2'' @ NUL # ''commit'' @ [LF]"
    by (simp_all add: tagListing_def tagFormatListing_def)
  have all: "getAllTags (tagRunner ?ts) repo0 = Inr [''v1'', ''v2'']"
    by (simp add: getAllTags_def tagRunner_def tagListing_def)
  have ann: "getAnnotatedTags (tagRunner ?ts) repo0 = Inr [''v1'']"
    by (simp add: getAnnotatedTags_def tagRunner_def tagFormatListing_def annotatedFormat_def
        annotatedTagOfLine_def)
  from annotated_subset_local [where git = "tagRunner ?ts" and repository = repo0 and ts = ?ts,
      OF plain formatted names] all ann
  have "set [''v1''] \<subseteq> set [''v1'', ''v2'']" by simp
  with plain formatted texts all ann show ?thesis by simp
qed

end
